theory Spec2Isabelle
  imports Main
begin

section \<open>Python text primitives\<close>

text \<open>
  A Python \<open>str\<close> is modelled as a list of characters, each character standing for the
  code point of the same number (0 to 255).  The character classes below are the ones of
  \<open>str.isspace\<close>, \<open>str.lower\<close> and the regular expression class \<open>\w\<close> on these
  code points.
\<close>

definition NL :: char where
  "NL = CHR 0x0A"

definition isspace :: "char \<Rightarrow> bool" where
  "isspace c =
     (let n = (of_char c :: nat)
      in (9 \<le> n \<and> n \<le> 13) \<or> (28 \<le> n \<and> n \<le> 32) \<or> n = 133 \<or> n = 160)"

definition lower_char :: "char \<Rightarrow> char" where
  "lower_char c =
     (let n = (of_char c :: nat)
      in if (65 \<le> n \<and> n \<le> 90) \<or> (192 \<le> n \<and> n \<le> 222 \<and> n \<noteq> 215)
         then char_of (n + 32) else c)"

definition lower :: "string \<Rightarrow> string" where
  "lower s = map lower_char s"

definition lstrip :: "string \<Rightarrow> string" where
  "lstrip s = dropWhile isspace s"

definition rstrip :: "string \<Rightarrow> string" where
  "rstrip s = rev (dropWhile isspace (rev s))"

definition strip :: "string \<Rightarrow> string" where
  "strip s = rstrip (lstrip s)"

text \<open>\<open>s.startswith(p)\<close> and \<open>sub in s\<close>.\<close>

definition startswith :: "string \<Rightarrow> string \<Rightarrow> bool" where
  "startswith s p = (take (length p) s = p)"

fun contains :: "string \<Rightarrow> string \<Rightarrow> bool" where
  "contains [] sub = (sub = [])"
| "contains (c # cs) sub = (startswith (c # cs) sub \<or> contains cs sub)"

text \<open>\<open>s.split(sep)\<close> for a one-character separator: never returns the empty list.\<close>

fun split_on :: "char \<Rightarrow> string \<Rightarrow> string list" where
  "split_on sep [] = [[]]"
| "split_on sep (c # cs) =
     (if c = sep then [] # split_on sep cs
      else (case split_on sep cs of
              [] \<Rightarrow> [[c]]
            | l # ls \<Rightarrow> (c # l) # ls))"

text \<open>\<open>s.split()\<close>: the maximal runs of characters that are not whitespace.\<close>

function split_ws :: "string \<Rightarrow> string list" where
  "split_ws [] = []"
| "split_ws (c # cs) =
     (if isspace c then split_ws cs
      else (c # takeWhile (\<lambda>x. \<not> isspace x) cs) # split_ws (dropWhile (\<lambda>x. \<not> isspace x) cs))"
  by pat_completeness auto
termination
  by (relation "measure length") (auto simp: length_dropWhile_le le_imp_less_Suc)

text \<open>\<open>sep.join(xs)\<close> and \<open>str(n)\<close> for a natural number.\<close>

fun join :: "string \<Rightarrow> string list \<Rightarrow> string" where
  "join sep [] = []"
| "join sep [x] = x"
| "join sep (x # y # ys) = x @ sep @ join sep (y # ys)"

definition digit_char :: "nat \<Rightarrow> char" where
  "digit_char d = char_of (48 + d)"

function str_nat :: "nat \<Rightarrow> string" where
  "str_nat n = (if n < 10 then [digit_char n] else str_nat (n div 10) @ [digit_char (n mod 10)])"
  by pat_completeness auto
termination
  by (relation "measure id") auto

section \<open>The reviewer's data (content\_reviewer.py)\<close>

datatype QualityRating = HIGH | MEDIUM | LOW

fun rating_value :: "QualityRating \<Rightarrow> string" where
  "rating_value HIGH = ''High''"
| "rating_value MEDIUM = ''Medium''"
| "rating_value LOW = ''Low''"

text \<open>
  The selectors of the two records keep the field names of the source; where a parameter or
  a local variable of the source has the name of a field it is shortened here (\<open>ttl\<close> for
  \<open>title\<close>, \<open>cid\<close> for \<open>content_id\<close>).
\<close>

record PlaceholderFlags =
  has_placeholders :: bool
  details :: string

record ContentReview =
  content_id :: string
  title :: string
  overall_rating :: string
  completeness_score :: int
  placeholder_flags :: PlaceholderFlags
  key_issues :: "string list"
  suggested_fixes :: "string list"
  evaluation_timestamp :: string

section \<open>Rating classifier\<close>

text \<open>
  \<open>_determine_overall_rating\<close>: the parameter \<open>score\<close> is rebound locally when the flag
  is set; only the rating is returned.
\<close>

definition determine_overall_rating :: "int \<Rightarrow> PlaceholderFlags \<Rightarrow> QualityRating" where
  "determine_overall_rating score flags =
     (let score = (if has_placeholders flags then score - 20 else score)
      in if score \<ge> 80 then HIGH
         else if score \<ge> 50 then MEDIUM
         else LOW)"

section \<open>Title resolver\<close>

text \<open>
  The loop of \<open>_extract_title\<close> over \<open>lines[:5]\<close>: a line that is not empty and does
  not start with \<open>#\<close> is returned cut to 100 characters, a line that starts with
  \<open># \<close> gives the heading text, any other line is passed over.
\<close>

fun extract_title_loop :: "string list \<Rightarrow> string" where
  "extract_title_loop [] = ''Untitled Content''"
| "extract_title_loop (line # rest) =
     (let line = strip line
      in if line \<noteq> [] \<and> \<not> startswith line ''#'' then take 100 line
         else if startswith line ''# '' then strip (drop 2 line)
         else extract_title_loop rest)"

definition extract_title :: "string \<Rightarrow> string" where
  "extract_title content =
     (let lines = split_on NL (strip content)
      in extract_title_loop (take 5 lines))"

text \<open>
  The title resolver is the first statement of \<open>review_content\<close>:
  \<open>if not title: title = self._extract_title(content)\<close>.
\<close>

definition resolve_title :: "string \<Rightarrow> string \<Rightarrow> string" where
  "resolve_title content ttl = (if ttl = [] then extract_title content else ttl)"

section \<open>Completeness scorer\<close>

text \<open>\<open>_calculate_completeness_score\<close>, statement by statement; Python's \<open>int\<close> is \<open>int\<close>.\<close>

definition calculate_completeness_score :: "string \<Rightarrow> string \<Rightarrow> int" where
  "calculate_completeness_score content ttl =
     (let score = (0::int);
          content_lower = lower content;
          word_count = length (split_ws content);
          score = (if ttl \<noteq> [] \<and> length (strip ttl) > 5 then score + 10
                   else if ttl \<noteq> [] then score + 5
                   else score);
          score = (if list_ex (contains content_lower) [''overview'', ''introduction'', ''summary'']
                   then score + 15
                   else if word_count > 50 then score + 10
                   else score);
          score = (if word_count > 500 then score + 30
                   else if word_count > 200 then score + 20
                   else if word_count > 100 then score + 10
                   else score);
          example_indicators = [''example'', ''for instance'', ''code'', ''```'', ''sample''];
          score = (if list_ex (contains content_lower) example_indicators then score + 20
                   else if contains content_lower ''step'' \<or> contains content_lower ''how to''
                   then score + 10
                   else score);
          score = (if contains content ''http'' \<or> contains content ''www.'' \<or> contains content ''[''
                   then score + 10
                   else if contains content_lower ''see also'' \<or> contains content_lower ''reference''
                   then score + 5
                   else score);
          metadata_indicators = [''author'', ''date'', ''updated'', ''version'', ''owner''];
          score = (if list_ex (contains content_lower) metadata_indicators then score + 10
                   else score);
          score = (if contains content ''#'' \<or> contains content ''*'' \<or> contains content ''-''
                   then score + 5
                   else score)
      in min score 100)"

subsection \<open>The seven buckets, as the specification words them\<close>

text \<open>
  These definitions follow the specification's list of buckets (section 4.3), one
  function per bucket, each reading what the specification names: the lower-cased content
  where it says so (bucket 2, the second rule of bucket 5, bucket 6), the content as it
  is where it says "content" (buckets 4, 5 and 7), the word count of the raw content.
  They are compared with the function above in the theorems for C1.
\<close>

definition word_count :: "string \<Rightarrow> nat" where
  "word_count content = length (split_ws content)"

definition bucket_title :: "string \<Rightarrow> int" where
  "bucket_title ttl =
     (if ttl \<noteq> [] \<and> length (strip ttl) > 5 then 10 else if ttl \<noteq> [] then 5 else 0)"

definition bucket_overview :: "string \<Rightarrow> int" where
  "bucket_overview content =
     (if contains (lower content) ''overview'' \<or> contains (lower content) ''introduction''
         \<or> contains (lower content) ''summary'' then 15
      else if word_count content > 50 then 10 else 0)"

definition bucket_body :: "string \<Rightarrow> int" where
  "bucket_body content =
     (if word_count content > 500 then 30
      else if word_count content > 200 then 20
      else if word_count content > 100 then 10 else 0)"

definition bucket_examples :: "string \<Rightarrow> int" where
  "bucket_examples content =
     (if contains content ''example'' \<or> contains content ''for instance''
         \<or> contains content ''code'' \<or> contains content ''```''
         \<or> contains content ''sample'' then 20
      else if contains content ''step'' \<or> contains content ''how to'' then 10
      else 0)"

definition bucket_references :: "string \<Rightarrow> int" where
  "bucket_references content =
     (if contains content ''http'' \<or> contains content ''www.'' \<or> contains content ''['' then 10
      else if contains (lower content) ''see also'' \<or> contains (lower content) ''reference'' then 5
      else 0)"

definition bucket_metadata :: "string \<Rightarrow> int" where
  "bucket_metadata content =
     (if contains (lower content) ''author'' \<or> contains (lower content) ''date''
         \<or> contains (lower content) ''updated'' \<or> contains (lower content) ''version''
         \<or> contains (lower content) ''owner'' then 10
      else 0)"

definition bucket_formatting :: "string \<Rightarrow> int" where
  "bucket_formatting content =
     (if contains content ''#'' \<or> contains content ''*'' \<or> contains content ''-'' then 5 else 0)"

definition bucket_sum :: "string \<Rightarrow> string \<Rightarrow> int" where
  "bucket_sum content ttl =
     bucket_title ttl + bucket_overview content + bucket_body content
     + bucket_examples content + bucket_references content + bucket_metadata content
     + bucket_formatting content"

section \<open>Regular expressions\<close>

text \<open>
  The eight placeholder patterns use literals, alternation, the word boundary \<open>\b\<close> and
  repetitions of one character class (\<open>.*\<close>, \<open>.*?\<close>, \<open>x+\<close>, \<open>\.{3,}\<close>).  The
  matcher below is the backtracking matcher of Python's \<open>re\<close> on this fragment:
  \<open>ends r s i\<close> lists the positions at which a match of \<open>r\<close> that starts at position
  \<open>i\<close> of \<open>s\<close> can end, in the order in which backtracking tries them, so that its head
  is the match the engine reports.  Every match is made with the flag \<open>re.IGNORECASE\<close>,
  as in the source: characters are compared after lower-casing.
\<close>

definition word_code :: "nat \<Rightarrow> bool" where
  "word_code n =
     ((48 \<le> n \<and> n \<le> 57) \<or> (65 \<le> n \<and> n \<le> 90) \<or> n = 95 \<or> (97 \<le> n \<and> n \<le> 122)
      \<or> n = 170 \<or> n = 178 \<or> n = 179 \<or> n = 181 \<or> n = 185 \<or> n = 186
      \<or> (188 \<le> n \<and> n \<le> 190) \<or> (192 \<le> n \<and> n \<le> 214) \<or> (216 \<le> n \<and> n \<le> 246)
      \<or> 248 \<le> n)"

definition is_word :: "char \<Rightarrow> bool" where
  "is_word c = word_code (of_char c)"

text \<open>\<open>\b\<close> at position \<open>i\<close>: exactly one of the two neighbours is a word character.\<close>

definition wordb :: "string \<Rightarrow> nat \<Rightarrow> bool" where
  "wordb s i =
     ((0 < i \<and> i \<le> length s \<and> is_word (s ! (i - 1))) \<noteq> (i < length s \<and> is_word (s ! i)))"

datatype cclass = Dot | Ch char

fun cmatch :: "cclass \<Rightarrow> char \<Rightarrow> bool" where
  "cmatch Dot c = (c \<noteq> NL)"
| "cmatch (Ch a) c = (lower_char c = lower_char a)"

text \<open>
  \<open>Rep k n greedy\<close> is \<open>n\<close> or more characters of the class \<open>k\<close>, the longest run
  first when greedy and the shortest first when lazy.
\<close>

datatype regex =
    Lit string
  | Wordb
  | Rep cclass nat bool
  | Seq regex regex
  | Alt regex regex

fun ends :: "regex \<Rightarrow> string \<Rightarrow> nat \<Rightarrow> nat list" where
  "ends (Lit w) s i =
     (if lower (take (length w) (drop i s)) = lower w then [i + length w] else [])"
| "ends Wordb s i = (if wordb s i then [i] else [])"
| "ends (Rep k n greedy) s i =
     (let m = length (takeWhile (cmatch k) (drop i s));
          js = map (\<lambda>d. i + d) [n..<Suc m]
      in if greedy then rev js else js)"
| "ends (Seq a b) s i = concat (map (ends b s) (ends a s i))"
| "ends (Alt a b) s i = ends a s i @ ends b s i"

text \<open>
  \<open>re.search\<close> reports whether some start position has a match.  \<open>re.findall\<close> scans
  from the left: at each position the first match of \<open>ends\<close> is taken and the scan goes on
  where it ended.  Each result is the text of the whole match; the one group of the first
  pattern spans the whole match too, its two \<open>\b\<close> being empty.  A match of length 0
  moves the scan one character on; none of the eight patterns has one.
\<close>

definition search :: "regex \<Rightarrow> string \<Rightarrow> bool" where
  "search r s = list_ex (\<lambda>i. ends r s i \<noteq> []) [0..<Suc (length s)]"

function findall_from :: "regex \<Rightarrow> string \<Rightarrow> nat \<Rightarrow> string list" where
  "findall_from r s pos =
     (if length s < pos then []
      else (case ends r s pos of
              [] \<Rightarrow> findall_from r s (Suc pos)
            | e # _ \<Rightarrow> take (e - pos) (drop pos s)
                       # findall_from r s (if pos < e then e else Suc pos)))"
  by pat_completeness auto
termination
  by (relation "measure (\<lambda>(r, s, pos). Suc (length s) - pos)") auto

definition findall :: "regex \<Rightarrow> string \<Rightarrow> string list" where
  "findall r s = findall_from r s 0"

section \<open>Placeholder detector\<close>

text \<open>\<open>self.placeholder_patterns\<close>, in the order of the source.\<close>

definition placeholder_patterns :: "regex list" where
  "placeholder_patterns =
     [ Seq Wordb
         (Seq (Alt (Lit ''tbd'') (Alt (Lit ''todo'') (Alt (Lit ''coming soon'')
                (Alt (Lit ''placeholder'') (Alt (Lit ''lorem ipsum'')
                  (Seq (Lit ''insert'') (Seq (Rep Dot 0 True) (Lit ''here''))))))))
              Wordb),
       Seq (Lit ''{{'') (Seq (Rep Dot 0 False) (Lit ''}}'')),
       Seq (Lit ''['') (Seq (Rep Dot 0 False) (Lit '']'')),
       Seq (Lit ''xx'') (Rep (Ch (CHR ''x'')) 1 True),
       Rep (Ch (CHR ''.'')) 3 True,
       Alt (Lit ''pending'') (Alt (Lit ''draft'') (Alt (Lit ''wip'') (Lit ''work in progress''))),
       Seq (Lit ''to be'')
         (Seq (Rep Dot 0 True)
              (Alt (Lit ''added'') (Alt (Lit ''written'') (Alt (Lit ''completed'') (Lit ''updated''))))),
       Seq (Lit ''example'')
         (Seq (Rep Dot 0 True)
              (Alt (Lit ''goes here'') (Alt (Lit ''needed'') (Lit ''tbd'')))) ]"

text \<open>
  \<open>_detect_placeholders\<close>.  Two things of the interpreter are made explicit.
  \<^item> \<open>set(found_placeholders[:3])\<close> is joined in the iteration order of a Python set,
    which depends on the string hashes of the running interpreter: the order is the
    parameter \<open>set_order\<close>, a function from the list the set is built from to the list of
    its elements as iterated.
  \<^item> \<open>len(short_sections) > len(lines) * 0.3\<close> compares an integer with a float
    product.  For every line count below \<open>2^50\<close> the product rounds to the integer
    \<open>3 * len(lines) / 10\<close> when that is an integer and stays strictly between its
    two neighbouring integers otherwise, so the comparison is the exact one written here.
\<close>

definition detect_placeholders :: "(string list \<Rightarrow> string list) \<Rightarrow> string \<Rightarrow> PlaceholderFlags" where
  "detect_placeholders set_order content =
     (let content_lower = lower content;
          found_placeholders = concat (map (\<lambda>pattern. findall pattern content_lower) placeholder_patterns);
          lines = split_on NL content;
          short_sections = filter (\<lambda>line. 0 < length (strip line) \<and> length (strip line) < 20) lines;
          has = (found_placeholders \<noteq> [] \<or> 3 * length lines < 10 * length short_sections);
          dets = [];
          dets = (if found_placeholders \<noteq> []
                  then ''Found placeholders: '' @ join '', '' (set_order (take 3 found_placeholders))
                  else dets);
          dets = (if length short_sections > 5
                  then dets @ '' '' @ str_nat (length short_sections) @ '' very short lines detected''
                  else dets)
      in \<lparr>has_placeholders = has, details = strip dets\<rparr>)"

section \<open>Issue identifier and suggestion generator\<close>

text \<open>\<open>_identify_key_issues\<close>; the parameter \<open>score\<close> is not read.\<close>

definition identify_key_issues :: "string \<Rightarrow> string \<Rightarrow> int \<Rightarrow> string list" where
  "identify_key_issues content ttl score =
     (let issues = [];
          content_lower = lower content;
          word_count = length (split_ws content);
          issues = (if ttl = [] \<or> length (strip ttl) < 5
                    then issues @ [''Missing or inadequate title''] else issues);
          issues = (if word_count < 100
                    then issues @ [''Content too brief - needs more detailed explanation'']
                    else issues);
          issues = (if \<not> list_ex (contains content_lower) [''example'', ''code'', ''```'']
                    then issues @ [''Missing practical examples or code samples'']
                    else issues);
          issues = (if \<not> list_ex (contains content_lower) [''author'', ''date'', ''updated'', ''owner'']
                    then issues @ [''Missing metadata (author, date, version info)'']
                    else issues);
          issues = (if \<not> contains content ''http'' \<and> \<not> contains content_lower ''reference''
                    then issues @ [''No external references or links provided'']
                    else issues);
          placeholder_found = list_ex (\<lambda>pattern. search pattern content_lower) placeholder_patterns;
          issues = (if placeholder_found
                    then issues @ [''Contains placeholder text that needs completion'']
                    else issues)
      in take 5 issues)"

text \<open>One pass of the loop of \<open>_generate_suggestions\<close>: the \<open>if\<close>/\<open>elif\<close> chain.\<close>

definition add_suggestion :: "string list \<Rightarrow> string \<Rightarrow> string list" where
  "add_suggestion suggestions issue =
     (if contains (lower issue) ''title''
      then suggestions @ [''Add a clear, descriptive title that summarizes the content purpose'']
      else if contains (lower issue) ''brief''
      then suggestions @ [''Expand content with detailed explanations, use cases, and context'']
      else if contains (lower issue) ''example''
      then suggestions @ [''Include practical code examples with step-by-step explanations'']
      else if contains (lower issue) ''metadata''
      then suggestions @ [''Add document metadata: author name, creation/update dates, version'']
      else if contains (lower issue) ''reference''
      then suggestions @ [''Include relevant links to documentation, tools, or related resources'']
      else if contains (lower issue) ''placeholder''
      then suggestions @ [''Replace all placeholder text with actual content'']
      else suggestions)"

definition generate_suggestions :: "string list \<Rightarrow> string \<Rightarrow> string list" where
  "generate_suggestions issues content =
     (let suggestions = foldl add_suggestion [] issues;
          suggestions = (if length (split_ws content) < 200
                         then suggestions @ [''Consider adding troubleshooting section or FAQ'']
                         else suggestions)
      in take 5 suggestions)"

text \<open>
  The six messages that \<open>_identify_key_issues\<close> can append, in the order of its checks,
  and the six keywords that the chain of \<open>_generate_suggestions\<close> tests, in its order.
\<close>

definition issue_messages :: "string list" where
  "issue_messages =
     [''Missing or inadequate title'',
      ''Content too brief - needs more detailed explanation'',
      ''Missing practical examples or code samples'',
      ''Missing metadata (author, date, version info)'',
      ''No external references or links provided'',
      ''Contains placeholder text that needs completion'']"

definition suggestion_keywords :: "string list" where
  "suggestion_keywords =
     [''title'', ''brief'', ''example'', ''metadata'', ''reference'', ''placeholder'']"

definition matching_keywords :: "string \<Rightarrow> string list" where
  "matching_keywords issue = filter (contains (lower issue)) suggestion_keywords"

text \<open>
  Two iteration orders that a set of strings can have, as functions of the list it is
  built from: its distinct elements in one order, and in the opposite order.  Which order
  an interpreter has depends on its string-hash seed, chosen when the interpreter starts.
\<close>

definition set_order_forward :: "string list \<Rightarrow> string list" where
  "set_order_forward xs = remdups xs"

definition set_order_backward :: "string list \<Rightarrow> string list" where
  "set_order_backward xs = rev (remdups xs)"

section \<open>The review\<close>

text \<open>
  \<open>review_content\<close> reads the wall clock twice: \<open>strftime_now\<close> is the text
  \<open>datetime.now().strftime('%Y%m%d_%H%M%S')\<close> of the first reading and \<open>isoformat_now\<close>
  the text \<open>datetime.now().isoformat()\<close> of the second.
\<close>

record Clock =
  strftime_now :: string
  isoformat_now :: string

definition review_content ::
  "(string list \<Rightarrow> string list) \<Rightarrow> Clock \<Rightarrow> string \<Rightarrow> string \<Rightarrow> string \<Rightarrow> ContentReview" where
  "review_content set_order clock content ttl cid =
     (let ttl = resolve_title content ttl;
          cid = (if cid = [] then ''content_'' @ strftime_now clock else cid);
          flags = detect_placeholders set_order content;
          score = calculate_completeness_score content ttl;
          rating = determine_overall_rating score flags;
          issues = identify_key_issues content ttl score;
          fixes = generate_suggestions issues content
      in \<lparr>content_id = cid,
          title = ttl,
          overall_rating = rating_value rating,
          completeness_score = score,
          placeholder_flags = flags,
          key_issues = issues,
          suggested_fixes = fixes,
          evaluation_timestamp = isoformat_now clock\<rparr>)"

section \<open>The HTTP endpoint (api.py)\<close>

text \<open>
  \<open>HTTPException\<close> is a subclass of \<open>Exception\<close>, so the handler \<open>except Exception\<close>
  of the endpoint receives every exception raised in its \<open>try\<close> block, the
  \<open>HTTPException\<close> of the block itself included.  The evaluator raises nothing on a
  string.  \<open>exc_str\<close> stands for \<open>str(e)\<close> of the framework.  The optional fields of
  the request are \<open>None\<close> or a string; \<open>review_content\<close> tests both with \<open>not\<close>, under
  which \<open>None\<close> and the empty string agree.
\<close>

datatype exc = HTTPException nat string

fun status_code :: "exc \<Rightarrow> nat" where
  "status_code (HTTPException code detail) = code"

record ContentRequest =
  request_content :: string
  request_title :: "string option"
  request_content_id :: "string option"

definition or_empty :: "string option \<Rightarrow> string" where
  "or_empty x = (case x of None \<Rightarrow> [] | Some v \<Rightarrow> v)"

text \<open>The \<open>try\<close> block of the endpoint \<open>/review\<close>, then the endpoint with its handler.\<close>

definition review_try ::
  "(string list \<Rightarrow> string list) \<Rightarrow> Clock \<Rightarrow> ContentRequest \<Rightarrow> exc + ContentReview" where
  "review_try set_order clock request =
     (if strip (request_content request) = []
      then Inl (HTTPException 400 ''Content cannot be empty'')
      else Inr (review_content set_order clock (request_content request)
                  (or_empty (request_title request)) (or_empty (request_content_id request))))"

definition api_review_content ::
  "(exc \<Rightarrow> string) \<Rightarrow> (string list \<Rightarrow> string list) \<Rightarrow> Clock \<Rightarrow> ContentRequest
     \<Rightarrow> exc + ContentReview" where
  "api_review_content exc_str set_order clock request =
     (case review_try set_order clock request of
        Inl e \<Rightarrow> Inl (HTTPException 500 (''Error processing content: '' @ exc_str e))
      | Inr response \<Rightarrow> Inr response)"

section \<open>Theorems\<close>

subsection \<open>The score is the sum of its buckets\<close>

lemma if_add_zero: "(if c then s + a else s) = s + (if c then a else (0::int))"
  by simp

lemma if_add_else: "(if c then s + a else s + e) = s + (if c then a else (e::int))"
  by simp

lemma score_bucket_sum:
  "calculate_completeness_score content ttl =
     min (bucket_title ttl + bucket_overview content + bucket_body content
          + bucket_examples (lower content) + bucket_references content
          + bucket_metadata content + bucket_formatting content) 100"
  unfolding calculate_completeness_score_def
  apply (simp only: if_add_zero if_add_else)
  apply (simp only: Let_def)
  unfolding bucket_title_def bucket_overview_def bucket_body_def
    bucket_examples_def bucket_references_def bucket_metadata_def bucket_formatting_def
    word_count_def
  apply (simp split del: if_split)
  done

lemma bucket_bounds:
  "0 \<le> bucket_title t \<and> bucket_title t \<le> 10"
  "0 \<le> bucket_overview c \<and> bucket_overview c \<le> 15"
  "0 \<le> bucket_body c \<and> bucket_body c \<le> 30"
  "0 \<le> bucket_examples c \<and> bucket_examples c \<le> 20"
  "0 \<le> bucket_references c \<and> bucket_references c \<le> 10"
  "0 \<le> bucket_metadata c \<and> bucket_metadata c \<le> 10"
  "0 \<le> bucket_formatting c \<and> bucket_formatting c \<le> 5"
  by (simp_all add: bucket_title_def bucket_overview_def bucket_body_def bucket_examples_def
        bucket_references_def bucket_metadata_def bucket_formatting_def)

text \<open>
  The claim C1 as stated fails: the specification's bucket 4 tests the content as it is,
  the code tests the lower-cased content.  On \<open>Example: run it\<close> with no title the
  code finds \<open>example\<close> and scores 20, while every bucket of the specification is 0.
\<close>

theorem C1_examples_bucket_case_counterexample:
  "calculate_completeness_score ''Example: run it'' [] = 20
   \<and> bucket_examples ''Example: run it'' = 0
   \<and> bucket_sum ''Example: run it'' [] = 0
   \<and> calculate_completeness_score ''Example: run it'' []
       \<noteq> min (bucket_sum ''Example: run it'' []) 100"
  by code_simp

text \<open>
  C1 (amended). For every content and every title the completeness score is the sum of the
  seven bucket values, each within its maximum (10, 15, 30, 20, 10, 10, 5), computed by
  the specified keyword and word-count rules with the keyword tests of bucket 4
  (Examples) applied to the lower-cased content, clamped to at most 100; so it is an
  integer between 0 and 100.
\<close>

theorem C1_score_is_clamped_bucket_sum:
  "calculate_completeness_score content ttl =
     min (bucket_title ttl + bucket_overview content + bucket_body content
          + bucket_examples (lower content) + bucket_references content
          + bucket_metadata content + bucket_formatting content) 100
   \<and> 0 \<le> bucket_title ttl \<and> bucket_title ttl \<le> 10
   \<and> 0 \<le> bucket_overview content \<and> bucket_overview content \<le> 15
   \<and> 0 \<le> bucket_body content \<and> bucket_body content \<le> 30
   \<and> 0 \<le> bucket_examples (lower content) \<and> bucket_examples (lower content) \<le> 20
   \<and> 0 \<le> bucket_references content \<and> bucket_references content \<le> 10
   \<and> 0 \<le> bucket_metadata content \<and> bucket_metadata content \<le> 10
   \<and> 0 \<le> bucket_formatting content \<and> bucket_formatting content \<le> 5
   \<and> 0 \<le> calculate_completeness_score content ttl
   \<and> calculate_completeness_score content ttl \<le> 100"
proof -
  note sum = score_bucket_sum [of content ttl]
  note b = bucket_bounds(1) [of ttl] bucket_bounds(2,3) [of content]
    bucket_bounds(4) [of "lower content"] bucket_bounds(5-7) [of content]
  have range: "0 \<le> calculate_completeness_score content ttl
      \<and> calculate_completeness_score content ttl \<le> 100"
    unfolding sum using b by linarith
  show ?thesis using sum b range by blast
qed

subsection \<open>The rating\<close>

text \<open>
  C2. For every score and every placeholder flag, the classifier compares the score, less
  20 when \<open>has_placeholders\<close> is set, with the thresholds: High from 80, Medium from 50
  and below 80, Low below 50.  The adjusted value is used in the comparison only: the
  function returns nothing but the rating.  Without placeholders 80 is High, 79 and 50
  are Medium, 49 is Low.
\<close>

theorem C2_rating_thresholds:
  "(determine_overall_rating score flags = HIGH)
     = (80 \<le> score - (if has_placeholders flags then 20 else 0))
   \<and> (determine_overall_rating score flags = MEDIUM)
     = (50 \<le> score - (if has_placeholders flags then 20 else 0)
        \<and> score - (if has_placeholders flags then 20 else 0) < 80)
   \<and> (determine_overall_rating score flags = LOW)
     = (score - (if has_placeholders flags then 20 else 0) < 50)
   \<and> determine_overall_rating 80 \<lparr>has_placeholders = False, details = d\<rparr> = HIGH
   \<and> determine_overall_rating 79 \<lparr>has_placeholders = False, details = d\<rparr> = MEDIUM
   \<and> determine_overall_rating 50 \<lparr>has_placeholders = False, details = d\<rparr> = MEDIUM
   \<and> determine_overall_rating 49 \<lparr>has_placeholders = False, details = d\<rparr> = LOW"
  by (simp add: determine_overall_rating_def)

subsection \<open>The fields of the review\<close>

lemma review_fields:
  "content_id (review_content so clk content ttl cid) =
     (if cid = [] then ''content_'' @ strftime_now clk else cid)"
  "title (review_content so clk content ttl cid) = resolve_title content ttl"
  "completeness_score (review_content so clk content ttl cid) =
     calculate_completeness_score content (resolve_title content ttl)"
  "placeholder_flags (review_content so clk content ttl cid) = detect_placeholders so content"
  "overall_rating (review_content so clk content ttl cid) =
     rating_value (determine_overall_rating
       (calculate_completeness_score content (resolve_title content ttl))
       (detect_placeholders so content))"
  "key_issues (review_content so clk content ttl cid) =
     identify_key_issues content (resolve_title content ttl)
       (calculate_completeness_score content (resolve_title content ttl))"
  "suggested_fixes (review_content so clk content ttl cid) =
     generate_suggestions
       (identify_key_issues content (resolve_title content ttl)
          (calculate_completeness_score content (resolve_title content ttl)))
       content"
  "evaluation_timestamp (review_content so clk content ttl cid) = isoformat_now clk"
  by (simp_all add: review_content_def Let_def)

text \<open>
  C5. For every content, title and id, the field \<open>completeness_score\<close> of the review is
  the scorer's output on the content and the resolved title, with nothing subtracted; the
  penalty of 20 enters the field \<open>overall_rating\<close> alone, through the classifier.
\<close>

theorem C5_stored_score_unpenalised:
  "completeness_score (review_content so clk content ttl cid)
     = calculate_completeness_score content (resolve_title content ttl)
   \<and> overall_rating (review_content so clk content ttl cid)
     = rating_value (determine_overall_rating
         (completeness_score (review_content so clk content ttl cid))
         (placeholder_flags (review_content so clk content ttl cid)))
   \<and> (determine_overall_rating
         (completeness_score (review_content so clk content ttl cid))
         (placeholder_flags (review_content so clk content ttl cid)) = HIGH)
     = (80 \<le> completeness_score (review_content so clk content ttl cid)
              - (if has_placeholders (detect_placeholders so content) then 20 else 0))"
  by (simp add: review_fields determine_overall_rating_def Let_def)

text \<open>
  One short line with a title of seven characters: the score 50 is stored as it is, and the
  rating is Low, the penalty having taken the comparison value to 30.
\<close>

lemma short_line_score:
  "calculate_completeness_score ''overview code #'' ''My talk'' = 50"
  by code_simp

lemma short_line_flagged:
  "has_placeholders (detect_placeholders remdups ''overview code #'')"
  by code_simp

theorem C5_stored_score_unpenalised_witness:
  "completeness_score
     (review_content remdups \<lparr>strftime_now = ''20240101_120000'', isoformat_now = ''2024-01-01T12:00:00''\<rparr>
        ''overview code #'' ''My talk'' ''doc1'') = 50
   \<and> overall_rating
     (review_content remdups \<lparr>strftime_now = ''20240101_120000'', isoformat_now = ''2024-01-01T12:00:00''\<rparr>
        ''overview code #'' ''My talk'' ''doc1'') = ''Low''"
  using C5_stored_score_unpenalised [of remdups
      "\<lparr>strftime_now = ''20240101_120000'', isoformat_now = ''2024-01-01T12:00:00''\<rparr>"
      "''overview code #''" "''My talk''" "''doc1''"]
    short_line_score short_line_flagged
  by (simp add: resolve_title_def review_fields determine_overall_rating_def)

lemma length_key_issues: "length (identify_key_issues content ttl score) \<le> 5"
  unfolding identify_key_issues_def Let_def by simp

lemma length_suggestions: "length (generate_suggestions issues content) \<le> 5"
  unfolding generate_suggestions_def Let_def by simp

text \<open>
  C8. For every content, title and id, \<open>key_issues\<close> and \<open>suggested_fixes\<close> of the
  review have at most 5 elements each.
\<close>

theorem C8_lists_capped_at_five:
  "length (key_issues (review_content so clk content ttl cid)) \<le> 5
   \<and> length (suggested_fixes (review_content so clk content ttl cid)) \<le> 5"
  by (simp only: review_fields length_key_issues length_suggestions simp_thms)

lemma has_placeholders_any_order:
  "has_placeholders (detect_placeholders so1 content)
     = has_placeholders (detect_placeholders so2 content)"
  by (simp add: detect_placeholders_def Let_def)

lemma two_placeholders_forward:
  "details (detect_placeholders set_order_forward ''TBD [x]'') = ''Found placeholders: tbd, [x]''"
  by code_simp

lemma two_placeholders_backward:
  "details (detect_placeholders set_order_backward ''TBD [x]'') = ''Found placeholders: [x], tbd''"
  by code_simp

text \<open>
  The claim C9 as stated fails: the details text joins a set in its iteration order, and
  two evaluations of \<open>TBD [x]\<close> by interpreters that iterate the set of the two matches
  in opposite orders give two different details texts, all inputs being the same.
\<close>

theorem C9_details_order_counterexample:
  "details (placeholder_flags
      (review_content set_order_forward
         \<lparr>strftime_now = ''20240101_120000'', isoformat_now = ''2024-01-01T12:00:00''\<rparr>
         ''TBD [x]'' ''Note'' ''doc1''))
     = ''Found placeholders: tbd, [x]''
   \<and> details (placeholder_flags
      (review_content set_order_backward
         \<lparr>strftime_now = ''20240101_120000'', isoformat_now = ''2024-01-01T12:00:00''\<rparr>
         ''TBD [x]'' ''Note'' ''doc1''))
     = ''Found placeholders: [x], tbd''
   \<and> placeholder_flags
      (review_content set_order_forward
         \<lparr>strftime_now = ''20240101_120000'', isoformat_now = ''2024-01-01T12:00:00''\<rparr>
         ''TBD [x]'' ''Note'' ''doc1'')
     \<noteq> placeholder_flags
      (review_content set_order_backward
         \<lparr>strftime_now = ''20240101_120000'', isoformat_now = ''2024-01-01T12:00:00''\<rparr>
         ''TBD [x]'' ''Note'' ''doc1'')"
proof -
  have "details (detect_placeholders set_order_forward ''TBD [x]'')
      \<noteq> details (detect_placeholders set_order_backward ''TBD [x]'')"
    by (simp only: two_placeholders_forward two_placeholders_backward) simp
  then have "detect_placeholders set_order_forward ''TBD [x]''
      \<noteq> detect_placeholders set_order_backward ''TBD [x]''"
    by auto
  then show ?thesis
    by (simp only: review_fields two_placeholders_forward two_placeholders_backward)
       simp
qed

text \<open>
  C9 (amended). Two evaluations of the same content, title and id, at any two readings of
  the clock and under any two iteration orders of sets, give the same score, rating,
  issues, suggestions, title and \<open>has_placeholders\<close> flag.  When both evaluations
  iterate sets in the same order (one interpreter, one hash seed) the placeholder flags
  are identical as a whole, the details text included, and the two reviews differ at most
  in the timestamp and in an auto-generated id.
\<close>

theorem C9_evaluation_repeatable:
  "completeness_score (review_content so1 clk1 content ttl cid)
     = completeness_score (review_content so2 clk2 content ttl cid)
   \<and> overall_rating (review_content so1 clk1 content ttl cid)
     = overall_rating (review_content so2 clk2 content ttl cid)
   \<and> key_issues (review_content so1 clk1 content ttl cid)
     = key_issues (review_content so2 clk2 content ttl cid)
   \<and> suggested_fixes (review_content so1 clk1 content ttl cid)
     = suggested_fixes (review_content so2 clk2 content ttl cid)
   \<and> title (review_content so1 clk1 content ttl cid)
     = title (review_content so2 clk2 content ttl cid)
   \<and> has_placeholders (placeholder_flags (review_content so1 clk1 content ttl cid))
     = has_placeholders (placeholder_flags (review_content so2 clk2 content ttl cid))
   \<and> placeholder_flags (review_content so clk1 content ttl cid)
     = placeholder_flags (review_content so clk2 content ttl cid)
   \<and> details (placeholder_flags (review_content so clk1 content ttl cid))
     = details (placeholder_flags (review_content so clk2 content ttl cid))
   \<and> review_content so clk2 content ttl cid
     = (review_content so clk1 content ttl cid)
         \<lparr>content_id := (if cid = [] then ''content_'' @ strftime_now clk2 else cid),
          evaluation_timestamp := isoformat_now clk2\<rparr>"
proof -
  have h: "has_placeholders (detect_placeholders so1 content)
      = has_placeholders (detect_placeholders so2 content)"
    by (rule has_placeholders_any_order)
  have r: "determine_overall_rating x (detect_placeholders so1 content)
      = determine_overall_rating x (detect_placeholders so2 content)" for x
    by (simp only: determine_overall_rating_def h)
  have last: "review_content so clk2 content ttl cid
     = (review_content so clk1 content ttl cid)
         \<lparr>content_id := (if cid = [] then ''content_'' @ strftime_now clk2 else cid),
          evaluation_timestamp := isoformat_now clk2\<rparr>"
    by (simp add: review_content_def Let_def)
  show ?thesis
    by (simp only: review_fields h r last [symmetric] simp_thms)
qed

subsection \<open>Issues and suggestions\<close>

lemma if_snoc: "(if c then xs @ [m] else xs) = xs @ (if c then [m] else [])"
  by simp

lemma key_issues_messages:
  "set (identify_key_issues content ttl score) \<subseteq> set issue_messages"
proof -
  have "set (identify_key_issues content ttl score)
      \<subseteq> set ((if ttl = [] \<or> length (strip ttl) < 5 then [issue_messages ! 0] else [])
             @ (if length (split_ws content) < 100 then [issue_messages ! 1] else [])
             @ (if \<not> list_ex (contains (lower content)) [''example'', ''code'', ''```'']
                then [issue_messages ! 2] else [])
             @ (if \<not> list_ex (contains (lower content)) [''author'', ''date'', ''updated'', ''owner'']
                then [issue_messages ! 3] else [])
             @ (if \<not> contains content ''http'' \<and> \<not> contains (lower content) ''reference''
                then [issue_messages ! 4] else [])
             @ (if list_ex (\<lambda>pattern. search pattern (lower content)) placeholder_patterns
                then [issue_messages ! 5] else []))"
    unfolding identify_key_issues_def
    apply (simp only: if_snoc)
    apply (simp only: Let_def append_Nil append_assoc)
    apply (rule order_trans [OF set_take_subset])
    apply (simp only: issue_messages_def nth_Cons_0 nth_Cons_numeral nth_Cons_Suc
             numeral_eq_Suc pred_numeral_simps One_nat_def)
    apply simp
    done
  also have "\<dots> \<subseteq> set issue_messages"
    by (auto simp: issue_messages_def)
  finally show ?thesis .
qed

lemma add_suggestion_append: "add_suggestion acc issue = acc @ add_suggestion [] issue"
  by (simp add: add_suggestion_def)

lemma one_suggestion_each:
  "list_all (\<lambda>issue. length (add_suggestion [] issue) = 1) issue_messages"
  by code_simp

lemma foldl_add_suggestion:
  "set issues \<subseteq> set issue_messages \<Longrightarrow>
   length (foldl add_suggestion acc issues) = length acc + length issues"
proof (induction issues arbitrary: acc)
  case Nil
  then show ?case by simp
next
  case (Cons i issues)
  from Cons.prems have "i \<in> set issue_messages" by simp
  with one_suggestion_each have "length (add_suggestion [] i) = 1"
    by (simp add: list_all_iff)
  then have "length (add_suggestion acc i) = length acc + 1"
    using add_suggestion_append [of acc i] by simp
  moreover have "set issues \<subseteq> set issue_messages" using Cons.prems by simp
  ultimately show ?case using Cons.IH [of "add_suggestion acc i"] by simp
qed

lemma keywords_of_messages:
  "map matching_keywords issue_messages =
     [[''title''], [''brief''], [''example''], [''metadata''], [''reference''], [''placeholder'']]"
  by code_simp

lemma suggestions_of_messages:
  "map (add_suggestion []) issue_messages =
     [[''Add a clear, descriptive title that summarizes the content purpose''],
      [''Expand content with detailed explanations, use cases, and context''],
      [''Include practical code examples with step-by-step explanations''],
      [''Add document metadata: author name, creation/update dates, version''],
      [''Include relevant links to documentation, tools, or related resources''],
      [''Replace all placeholder text with actual content'']]"
  by code_simp

lemma length_suggestions_of_issues:
  "length (generate_suggestions (identify_key_issues content ttl score) content)
     = min (length (identify_key_issues content ttl score)
            + (if length (split_ws content) < 200 then 1 else 0)) 5"
  using foldl_add_suggestion [OF key_issues_messages, of "[]" content ttl score]
  by (simp add: generate_suggestions_def Let_def min_def)

text \<open>
  C10. Each of the six messages of the issue identifier contains exactly one of the six
  keywords of the suggestion generator (title, brief, example, metadata, reference,
  placeholder, in that order of messages) and gives exactly one fixed suggestion; the
  issue identifier returns only these messages; so the suggestions for its issues number
  the issues, plus one when the content has fewer than 200 words, cut to 5, in the review
  as well.
\<close>

theorem C10_one_suggestion_per_issue:
  "map matching_keywords issue_messages =
     [[''title''], [''brief''], [''example''], [''metadata''], [''reference''], [''placeholder'']]
   \<and> map (add_suggestion []) issue_messages =
     [[''Add a clear, descriptive title that summarizes the content purpose''],
      [''Expand content with detailed explanations, use cases, and context''],
      [''Include practical code examples with step-by-step explanations''],
      [''Add document metadata: author name, creation/update dates, version''],
      [''Include relevant links to documentation, tools, or related resources''],
      [''Replace all placeholder text with actual content'']]
   \<and> set (identify_key_issues content ttl score) \<subseteq> set issue_messages
   \<and> length (generate_suggestions (identify_key_issues content ttl score) content)
     = min (length (identify_key_issues content ttl score)
            + (if length (split_ws content) < 200 then 1 else 0)) 5
   \<and> length (suggested_fixes (review_content so clk content ttl cid))
     = min (length (key_issues (review_content so clk content ttl cid))
            + (if length (split_ws content) < 200 then 1 else 0)) 5"
proof -
  have "length (suggested_fixes (review_content so clk content ttl cid))
     = min (length (key_issues (review_content so clk content ttl cid))
            + (if length (split_ws content) < 200 then 1 else 0)) 5"
    by (simp only: review_fields length_suggestions_of_issues)
  then show ?thesis
    using keywords_of_messages suggestions_of_messages
      key_issues_messages [of content ttl score]
      length_suggestions_of_issues [of content ttl score]
    by blast
qed

subsection \<open>The endpoint\<close>

lemma blank_request_caught:
  "strip (request_content request) = [] \<Longrightarrow>
   api_review_content exc_str so clk request =
     Inl (HTTPException 500
            (''Error processing content: '' @ exc_str (HTTPException 400 ''Content cannot be empty'')))"
  by (simp add: api_review_content_def review_try_def)

text \<open>
  C4. The request whose content is three spaces is refused inside the \<open>try\<close> block
  with status 400, before the evaluator is called; the handler of the same block catches
  that exception, and the endpoint answers with status 500 and a detail that starts
  \<open>Error processing content\<close>.
\<close>

theorem C4_blank_content_answered_with_500:
  "review_try so clk \<lparr>request_content = ''   '', request_title = None, request_content_id = None\<rparr>
     = Inl (HTTPException 400 ''Content cannot be empty'')
   \<and> api_review_content exc_str so clk
       \<lparr>request_content = ''   '', request_title = None, request_content_id = None\<rparr>
     = Inl (HTTPException 500
              (''Error processing content: ''
               @ exc_str (HTTPException 400 ''Content cannot be empty'')))
   \<and> status_code (HTTPException 500
              (''Error processing content: ''
               @ exc_str (HTTPException 400 ''Content cannot be empty''))) = 500"
  by (simp add: api_review_content_def review_try_def strip_def lstrip_def rstrip_def isspace_def)

subsection \<open>The title resolver\<close>

lemma isspace_NL: "isspace NL"
  by (simp add: isspace_def NL_def)

lemma lstrip_Nil_iff: "lstrip l = [] \<longleftrightarrow> (\<forall>c\<in>set l. isspace c)"
  by (simp add: lstrip_def dropWhile_eq_Nil_conv)

lemma rstrip_Nil_iff: "rstrip l = [] \<longleftrightarrow> (\<forall>c\<in>set l. isspace c)"
  by (simp add: rstrip_def dropWhile_eq_Nil_conv)

lemma set_lstrip: "set (lstrip l) \<subseteq> set l"
  by (auto simp: lstrip_def dest: set_dropWhileD)

lemma lstrip_hd: "lstrip l \<noteq> [] \<Longrightarrow> \<not> isspace (hd (lstrip l))"
  unfolding lstrip_def by (rule hd_dropWhile)

lemma strip_Nil_iff: "strip l = [] \<longleftrightarrow> (\<forall>c\<in>set l. isspace c)"
proof
  assume "strip l = []"
  then have all: "\<forall>c\<in>set (lstrip l). isspace c"
    by (simp add: strip_def rstrip_Nil_iff)
  have "lstrip l = []"
  proof (rule ccontr)
    assume ne: "lstrip l \<noteq> []"
    then have "hd (lstrip l) \<in> set (lstrip l)" by simp
    with all lstrip_hd [OF ne] show False by blast
  qed
  then show "\<forall>c\<in>set l. isspace c" by (simp add: lstrip_Nil_iff)
next
  assume "\<forall>c\<in>set l. isspace c"
  then have "lstrip l = []" by (simp add: lstrip_Nil_iff)
  then show "strip l = []" by (simp add: strip_def rstrip_def)
qed

lemma split_on_not_Nil: "split_on sep s \<noteq> []"
  by (induction s) (auto split: list.splits)

lemma set_split_on: "set s \<subseteq> insert sep (\<Union> (set ` set (split_on sep s)))"
proof (induction s)
  case Nil
  then show ?case by simp
next
  case (Cons c s)
  show ?case
  proof (cases "c = sep")
    case True
    with Cons show ?thesis by auto
  next
    case False
    obtain l ls where sp: "split_on sep s = l # ls"
      using split_on_not_Nil [of sep s] by (cases "split_on sep s") auto
    with False Cons show ?thesis by auto
  qed
qed

lemma blank_lines_blank_content:
  assumes "\<forall>l\<in>set (split_on NL content). strip l = []"
  shows "strip content = []"
proof -
  have "\<forall>c\<in>set content. isspace c"
  proof
    fix c assume "c \<in> set content"
    with set_split_on [of content NL]
    consider "c = NL" | l where "l \<in> set (split_on NL content)" "c \<in> set l" by auto
    then show "isspace c"
    proof cases
      case 1 then show ?thesis by (simp add: isspace_NL)
    next
      case 2
      with assms have "strip l = []" by blast
      with 2 show ?thesis by (simp add: strip_Nil_iff)
    qed
  qed
  then show ?thesis by (simp add: strip_Nil_iff)
qed

lemma extract_title_blank:
  "strip content = [] \<Longrightarrow> extract_title content = ''Untitled Content''"
proof -
  assume b: "strip content = []"
  have "strip [] = []" by (simp add: strip_def lstrip_def rstrip_def)
  then show ?thesis by (simp add: extract_title_def b startswith_def)
qed

text \<open>
  The claim C3 as stated fails: five blank lines followed by a line of text have their
  first five lines blank, yet the title is that line, since the content is trimmed before
  it is split into lines.
\<close>

theorem C3_leading_blank_lines_counterexample:
  "map strip (take 5 (split_on NL ([NL, NL, NL, NL, NL] @ ''Hello''))) = [[], [], [], [], []]
   \<and> resolve_title ([NL, NL, NL, NL, NL] @ ''Hello'') [] = ''Hello''
   \<and> resolve_title ([NL, NL, NL, NL, NL] @ ''Hello'') [] \<noteq> ''Untitled Content''"
  by code_simp

text \<open>
  C3 (amended). For every content string whose lines are all blank (empty or
  whitespace-only), so that the content itself is empty or whitespace-only, title
  resolution with no supplied title returns the literal \<open>Untitled Content\<close>.
\<close>

theorem C3_blank_content_untitled:
  assumes "\<forall>l\<in>set (split_on NL content). strip l = []"
  shows "resolve_title content [] = ''Untitled Content''"
  using extract_title_blank [OF blank_lines_blank_content [OF assms]]
  by (simp add: resolve_title_def)

theorem C3_blank_content_untitled_witness:
  "list_all (\<lambda>l. strip l = []) (split_on NL ('' '' @ [NL] @ ''  ''))
   \<and> resolve_title ('' '' @ [NL] @ ''  '') [] = ''Untitled Content''"
proof -
  have a: "list_all (\<lambda>l. strip l = []) (split_on NL ('' '' @ [NL] @ ''  ''))"
    by code_simp
  then have "\<forall>l\<in>set (split_on NL ('' '' @ [NL] @ ''  '')). strip l = []"
    by (simp only: list_all_iff)
  from C3_blank_content_untitled [OF this] a show ?thesis by blast
qed

lemma strip_space_Cons: "isspace c \<Longrightarrow> strip (c # l) = strip l"
  by (simp add: strip_def lstrip_def)

lemma strip_nonspace_Cons: "\<not> isspace c \<Longrightarrow> strip (c # l) \<noteq> []"
  by (simp add: strip_Nil_iff)

lemma lines_lstrip:
  "\<exists>c\<in>set s. \<not> isspace c \<Longrightarrow>
   map strip (split_on NL (lstrip s)) = dropWhile (\<lambda>l. l = []) (map strip (split_on NL s))"
proof (induction s)
  case Nil
  then show ?case by simp
next
  case (Cons c s)
  obtain l ls where sp: "split_on NL s = l # ls"
    using split_on_not_Nil [of NL s] by (cases "split_on NL s") auto
  show ?case
  proof (cases "isspace c")
    case True
    with Cons.prems have ex: "\<exists>c\<in>set s. \<not> isspace c" by auto
    have ls: "lstrip (c # s) = lstrip s" using True by (simp add: lstrip_def)
    show ?thesis
    proof (cases "c = NL")
      case True
      then show ?thesis using Cons.IH [OF ex] ls
        by (simp add: strip_def lstrip_def rstrip_def)
    next
      case False
      then show ?thesis using Cons.IH [OF ex] ls sp \<open>isspace c\<close>
        by (simp add: strip_space_Cons)
    qed
  next
    case False
    then have ls: "lstrip (c # s) = c # s" by (simp add: lstrip_def)
    from False isspace_NL have "c \<noteq> NL" by auto
    then show ?thesis using ls sp strip_nonspace_Cons [OF False]
      by simp
  qed
qed

lemma split_on_snoc:
  "split_on sep (s @ [c]) =
     (if c = sep then split_on sep s @ [[]]
      else butlast (split_on sep s) @ [last (split_on sep s) @ [c]])"
proof (induction s)
  case Nil
  then show ?case by simp
next
  case (Cons a s)
  obtain l ls where sp: "split_on sep s = l # ls"
    using split_on_not_Nil [of sep s] by (cases "split_on sep s") auto
  show ?case using Cons sp
    by (auto split: list.splits simp: split_on_not_Nil)
qed

lemma split_on_rev: "split_on sep (rev s) = rev (map rev (split_on sep s))"
proof (induction s)
  case Nil
  then show ?case by simp
next
  case (Cons a s)
  obtain l ls where sp: "split_on sep s = l # ls"
    using split_on_not_Nil [of sep s] by (cases "split_on sep s") auto
  show ?case using Cons sp
    by (simp add: split_on_snoc butlast_append)
qed

lemma rstrip_Cons:
  "rstrip (c # l) = (if isspace c \<and> rstrip l = [] then [] else c # rstrip l)"
  by (auto simp: rstrip_def dropWhile_append dropWhile_eq_Nil_conv)

lemma strip_commute: "lstrip (rstrip l) = rstrip (lstrip l)"
proof (induction l)
  case Nil
  then show ?case by (simp add: lstrip_def rstrip_def)
next
  case (Cons c l)
  show ?case
  proof (cases "isspace c")
    case True
    then have l1: "lstrip (c # l) = lstrip l" by (simp add: lstrip_def)
    show ?thesis
    proof (cases "rstrip l = []")
      case True
      with \<open>isspace c\<close> have "rstrip (c # l) = []" by (simp add: rstrip_Cons)
      moreover have "rstrip (lstrip l) = []"
        using Cons.IH True by (simp add: lstrip_def)
      ultimately show ?thesis using l1 by (simp add: lstrip_def)
    next
      case False
      with \<open>isspace c\<close> have "rstrip (c # l) = c # rstrip l" by (simp add: rstrip_Cons)
      then show ?thesis using l1 Cons.IH \<open>isspace c\<close> by (simp add: lstrip_def)
    qed
  next
    case False
    then show ?thesis by (simp add: lstrip_def rstrip_Cons)
  qed
qed

lemma strip_rev: "strip (rev l) = rev (strip l)"
proof -
  have "strip (rev l) = rstrip (rev (rstrip l))"
    by (simp add: strip_def lstrip_def rstrip_def)
  also have "\<dots> = rev (lstrip (rstrip l))"
    by (simp add: rstrip_def lstrip_def)
  also have "\<dots> = rev (strip l)"
    by (simp add: strip_commute strip_def)
  finally show ?thesis .
qed

lemma lines_rstrip:
  assumes "\<exists>c\<in>set s. \<not> isspace c"
  shows "map strip (split_on NL (rstrip s)) =
         rev (dropWhile (\<lambda>l. l = []) (rev (map strip (split_on NL s))))"
proof -
  have ex: "\<exists>c\<in>set (rev s). \<not> isspace c" using assms by simp
  have r: "rstrip s = rev (lstrip (rev s))" by (simp add: rstrip_def lstrip_def)
  have "map strip (split_on NL (rstrip s)) = rev (map rev (map strip (split_on NL (lstrip (rev s)))))"
    unfolding r split_on_rev by (simp add: rev_map strip_rev)
  also have "\<dots> = rev (map rev (dropWhile (\<lambda>l. l = []) (map strip (split_on NL (rev s)))))"
    by (simp only: lines_lstrip [OF ex])
  also have "\<dots> = rev (dropWhile (\<lambda>l. l = []) (rev (map strip (split_on NL s))))"
    by (simp add: split_on_rev rev_map strip_rev dropWhile_map comp_def)
  finally show ?thesis .
qed

lemma lines_strip:
  assumes "\<exists>c\<in>set s. \<not> isspace c"
  shows "map strip (split_on NL (strip s)) =
         rev (dropWhile (\<lambda>l. l = []) (rev (dropWhile (\<lambda>l. l = []) (map strip (split_on NL s)))))"
proof -
  have "lstrip s \<noteq> []" using assms by (simp add: lstrip_Nil_iff)
  then have "\<not> isspace (hd (lstrip s))" "hd (lstrip s) \<in> set (lstrip s)"
    using lstrip_hd by auto
  then have ex: "\<exists>c\<in>set (lstrip s). \<not> isspace c" by blast
  show ?thesis
    unfolding strip_def lines_rstrip [OF ex] lines_lstrip [OF assms] ..
qed

lemma loop_first:
  assumes "\<forall>l\<in>set pre. strip l = [] \<or> (startswith (strip l) ''#'' \<and> \<not> startswith (strip l) ''# '')"
    and "strip l0 \<noteq> []" and "\<not> startswith (strip l0) ''#''"
  shows "extract_title_loop (pre @ l0 # rest) = take 100 (strip l0)"
  using assms
proof (induction pre)
  case Nil
  then show ?case by (simp add: Let_def)
next
  case (Cons a pre)
  then show ?case by (auto simp: Let_def startswith_def)
qed

lemma dropWhile_keep:
  "\<not> P l \<Longrightarrow> dropWhile P (pre @ l # rest) = dropWhile P pre @ l # rest"
  by (induction pre) auto

lemma lines_of_content:
  "l \<in> set (split_on sep s) \<Longrightarrow> set l \<subseteq> set s"
proof (induction s arbitrary: l)
  case Nil
  then show ?case by simp
next
  case (Cons c s)
  obtain l' ls where sp: "split_on sep s = l' # ls"
    using split_on_not_Nil [of sep s] by (cases "split_on sep s") auto
  show ?case
  proof (cases "c = sep")
    case True
    with Cons show ?thesis by auto
  next
    case False
    with Cons.prems sp have "l = c # l' \<or> l \<in> set ls" by simp
    then show ?thesis
    proof
      assume "l = c # l'"
      moreover have "set l' \<subseteq> set s" using Cons.IH [of l'] sp by simp
      ultimately show ?thesis by auto
    next
      assume "l \<in> set ls"
      then have "set l \<subseteq> set s" using Cons.IH [of l] sp by simp
      then show ?thesis by auto
    qed
  qed
qed

text \<open>
  The claim C7 as stated fails: the line \<open>#Title\<close> is not empty and does not start
  with \<open># \<close>, yet it is passed over, since it starts with \<open>#\<close>; the title is the
  next line.
\<close>

theorem C7_hash_line_counterexample:
  "map strip (take 5 (split_on NL (''#Title'' @ [NL] @ ''Body''))) = [''#Title'', ''Body'']
   \<and> \<not> startswith ''#Title'' ''# ''
   \<and> resolve_title (''#Title'' @ [NL] @ ''Body'') [] = ''Body''
   \<and> resolve_title (''#Title'' @ [NL] @ ''Body'') [] \<noteq> take 100 ''#Title''"
  by code_simp

text \<open>
  C7 (amended). For every content string, when no title is supplied: if line \<open>k\<close> is
  among the first 5 lines, its trimmed form is not empty and does not start with
  \<open>#\<close>, it is the first such line (every earlier line is blank or starts with
  \<open>#\<close> once trimmed), and no earlier line starts with \<open># \<close> once trimmed, then
  that line wins and is returned trimmed and cut to 100 characters.
\<close>

theorem C7_first_plain_line_wins:
  assumes k5: "k < 5" and klen: "k < length (split_on NL content)"
    and ne: "strip (split_on NL content ! k) \<noteq> []"
    and plain: "\<not> startswith (strip (split_on NL content ! k)) ''#''"
    and first: "\<forall>j<k. strip (split_on NL content ! j) = []
                      \<or> startswith (strip (split_on NL content ! j)) ''#''"
    and nohead: "\<forall>j<k. \<not> startswith (strip (split_on NL content ! j)) ''# ''"
  shows "resolve_title content [] = take 100 (strip (split_on NL content ! k))"
proof -
  define ls where "ls = split_on NL content"
  define X where "X = map strip ls"
  define lk where "lk = strip (ls ! k)"
  have klen': "k < length ls" using klen by (simp add: ls_def)
  have Xk: "X ! k = lk" using klen' by (simp add: X_def lk_def)
  have lk_ne: "lk \<noteq> []" using ne by (simp add: lk_def ls_def)
  \<comment> \<open>the content has a character that is not whitespace\<close>
  have "\<exists>c\<in>set (ls ! k). \<not> isspace c"
    using ne strip_Nil_iff [of "ls ! k"] by (auto simp: ls_def)
  moreover have "set (ls ! k) \<subseteq> set content"
    using lines_of_content [of "ls ! k" NL content] klen' by (simp add: ls_def)
  ultimately have ex: "\<exists>c\<in>set content. \<not> isspace c" by blast
  \<comment> \<open>the trimmed lines of the trimmed content\<close>
  have Xsplit: "X = take k X @ lk # drop (Suc k) X"
    using id_take_nth_drop [of k X] klen' Xk by (simp add: X_def)
  define pre where "pre = dropWhile (\<lambda>l. l = []) (take k X)"
  define post where "post = rev (dropWhile (\<lambda>l. l = []) (rev (drop (Suc k) X)))"
  have d1: "dropWhile (\<lambda>l. l = []) X = pre @ lk # drop (Suc k) X"
    using dropWhile_keep [of "\<lambda>l. l = []" lk "take k X" "drop (Suc k) X"] lk_ne Xsplit
    by (simp add: pre_def)
  have d2: "rev (dropWhile (\<lambda>l. l = []) (rev (pre @ lk # drop (Suc k) X))) = pre @ lk # post"
    using dropWhile_keep [of "\<lambda>l. l = []" lk "rev (drop (Suc k) X)" "rev pre"] lk_ne
    by (simp add: post_def)
  have T: "map strip (split_on NL (strip content)) = pre @ lk # post"
    using lines_strip [OF ex] d1 d2 by (simp add: X_def ls_def)
  then obtain L1 l0 L2 where L: "split_on NL (strip content) = L1 @ l0 # L2"
    and L1: "map strip L1 = pre" and l0: "strip l0 = lk"
    by (auto simp: map_eq_append_conv map_eq_Cons_conv)
  have len: "length L1 \<le> k"
  proof -
    have "length L1 = length pre" using L1 by (metis length_map)
    also have "\<dots> \<le> length (take k X)" unfolding pre_def by (rule length_dropWhile_le)
    also have "\<dots> \<le> k" by simp
    finally show ?thesis .
  qed
  have passed: "\<forall>l\<in>set L1. strip l = [] \<or> (startswith (strip l) ''#'' \<and> \<not> startswith (strip l) ''# '')"
  proof
    fix l assume "l \<in> set L1"
    then have "strip l \<in> set pre" using L1 by auto
    then have "strip l \<in> set (take k X)" unfolding pre_def by (rule set_dropWhileD)
    then obtain j where j: "j < k" "strip l = X ! j"
      using klen' by (auto simp: in_set_conv_nth X_def)
    then have "X ! j = strip (split_on NL content ! j)"
      using klen' by (simp add: X_def ls_def)
    with j first nohead show "strip l = [] \<or> (startswith (strip l) ''#'' \<and> \<not> startswith (strip l) ''# '')"
      by auto
  qed
  have tk: "take 5 (L1 @ l0 # L2) = L1 @ l0 # take (4 - length L1) L2"
    using len k5 by (simp add: take_Cons')
  have "extract_title content = extract_title_loop (L1 @ l0 # take (4 - length L1) L2)"
    by (simp only: extract_title_def L tk Let_def)
  also have "\<dots> = take 100 (strip l0)"
    using loop_first [OF passed, of l0] lk_ne plain l0 by (simp add: lk_def ls_def)
  finally show ?thesis
    by (simp add: resolve_title_def l0 lk_def ls_def)
qed

text \<open>A blank line, a second-level heading, then the line that wins.\<close>

theorem C7_first_plain_line_wins_witness:
  "resolve_title ([NL] @ ''## Notes'' @ [NL] @ ''Plain title line'' @ [NL] @ ''more'') []
     = ''Plain title line''"
proof -
  define c where "c = [NL] @ ''## Notes'' @ [NL] @ ''Plain title line'' @ [NL] @ ''more''"
  have ls: "split_on NL c = ['''', ''## Notes'', ''Plain title line'', ''more'']"
    unfolding c_def by code_simp
  have s0: "strip '''' = ''''" by code_simp
  have s1: "strip ''## Notes'' = ''## Notes''" by code_simp
  have s2: "strip ''Plain title line'' = ''Plain title line''" by code_simp
  have p1: "startswith ''## Notes'' ''#''" "\<not> startswith ''## Notes'' ''# ''"
    "\<not> startswith ''Plain title line'' ''#''" by code_simp+
  have two: "j < 2 \<Longrightarrow> j = 0 \<or> j = 1" for j :: nat by arith
  have "resolve_title c [] = take 100 (strip (split_on NL c ! 2))"
  proof (rule C7_first_plain_line_wins)
    show "(2::nat) < 5" by simp
    show "2 < length (split_on NL c)" by (simp add: ls)
    show "strip (split_on NL c ! 2) \<noteq> []" by (simp add: ls s2)
    show "\<not> startswith (strip (split_on NL c ! 2)) ''#''" using p1 by (simp add: ls s2)
    show "\<forall>j<2. strip (split_on NL c ! j) = [] \<or> startswith (strip (split_on NL c ! j)) ''#''"
      using p1 by (auto dest!: two simp: ls s0 s1)
    show "\<forall>j<2. \<not> startswith (strip (split_on NL c ! j)) ''# ''"
      using p1 by (auto dest!: two simp: ls s0 s1 startswith_def)
  qed
  then have "resolve_title c [] = ''Plain title line''" by (simp add: ls s2)
  then show ?thesis unfolding c_def .
qed

subsection \<open>The placeholder detector\<close>

lemma of_char_lt_256: "(of_char c :: nat) < 256"
  by (rule of_char_mod_256 [where ?'a = nat, THEN subst, of "\<lambda>n. n < 256"]) simp

lemma word_code_ascii_upper:
  "65 \<le> n \<Longrightarrow> n \<le> 90 \<Longrightarrow> word_code n \<and> word_code (n + 32)"
  by (simp add: word_code_def)

lemma word_code_latin_upper:
  assumes "192 \<le> n" "n \<le> 222" "n \<noteq> 215"
  shows "word_code n \<and> word_code (n + 32)"
proof -
  have "n \<le> 214 \<or> 216 \<le> n" using assms(3) by arith
  then show ?thesis using assms(1,2) by (auto simp: word_code_def)
qed

lemma is_word_lower_char: "is_word (lower_char c) = is_word c"
proof -
  define n where "n = (of_char c :: nat)"
  have lc: "lower_char c =
      (if (65 \<le> n \<and> n \<le> 90) \<or> (192 \<le> n \<and> n \<le> 222 \<and> n \<noteq> 215)
       then char_of (n + 32) else c)"
    by (simp only: lower_char_def Let_def n_def)
  show ?thesis
  proof (cases "(65 \<le> n \<and> n \<le> 90) \<or> (192 \<le> n \<and> n \<le> 222 \<and> n \<noteq> 215)")
    case True
    then have w: "word_code n \<and> word_code (n + 32)"
      using word_code_ascii_upper [of n] word_code_latin_upper [of n] by blast
    from True have "n + 32 < 256" by auto
    then have m: "(of_char (char_of (n + 32)) :: nat) = n + 32"
      by (simp add: of_char_of)
    have "lower_char c = char_of (n + 32)" using True by (simp only: lc if_True)
    then show ?thesis using w m by (simp add: is_word_def n_def [symmetric])
  next
    case False
    then have "lower_char c = c" by (simp only: lc if_False)
    then show ?thesis by simp
  qed
qed

lemma findall_from_nonempty:
  "pos \<le> i \<Longrightarrow> i \<le> length s \<Longrightarrow> ends r s i \<noteq> [] \<Longrightarrow> findall_from r s pos \<noteq> []"
proof (induction "i - pos" arbitrary: pos)
  case 0
  then have "pos = i" by simp
  with 0 show ?case
    by (subst findall_from.simps) (auto split: list.splits)
next
  case (Suc n)
  show ?case
  proof (cases "ends r s pos")
    case Nil
    have "findall_from r s (Suc pos) \<noteq> []"
      using Suc.hyps(1) [of "Suc pos"] Suc.hyps(2) Suc.prems by simp
    with Nil Suc.prems Suc.hyps(2) show ?thesis
      by (subst findall_from.simps) simp
  next
    case (Cons e es)
    with Suc.prems Suc.hyps(2) show ?thesis
      by (subst findall_from.simps) simp
  qed
qed

lemma findall_nonempty:
  "i \<le> length s \<Longrightarrow> ends r s i \<noteq> [] \<Longrightarrow> findall r s \<noteq> []"
  unfolding findall_def by (rule findall_from_nonempty) simp_all

lemma lower_TBD: "lower ''TBD'' = ''tbd''"
  by code_simp

lemma is_word_tbd: "is_word CHR ''t''" "is_word CHR ''d''"
  by code_simp+

lemma lower_append: "lower (a @ b) = lower a @ lower b"
  by (simp add: lower_def)

lemma lower_lower_tbd: "lower ''tbd'' = ''tbd''"
  by code_simp

lemma tbd_word_found:
  assumes c: "content = pre @ ''TBD'' @ post"
    and l: "pre = [] \<or> \<not> is_word (last pre)"
    and r: "post = [] \<or> \<not> is_word (hd post)"
  shows "findall (hd placeholder_patterns) (lower content) \<noteq> []"
proof -
  define s where "s = lower content"
  define i where "i = length pre"
  define p where "p = lower pre"
  define q where "q = lower post"
  have s: "s = p @ ''tbd'' @ q"
    by (simp only: s_def c lower_append lower_TBD p_def q_def)
  have ip: "i = length p" by (simp add: i_def p_def lower_def)
  have len: "length s = i + 3 + length q" by (simp add: s ip)
  have left: "\<not> (0 < i \<and> i \<le> length s \<and> is_word (s ! (i - 1)))"
  proof (cases "pre = []")
    case True then show ?thesis by (simp add: i_def)
  next
    case False
    then have "p \<noteq> []" by (simp add: p_def lower_def)
    then have "s ! (i - 1) = last p"
      by (simp add: s ip nth_append last_conv_nth)
    also have "\<dots> = lower_char (last pre)"
      using False by (simp add: p_def lower_def last_map)
    finally show ?thesis using l False by (simp add: is_word_lower_char)
  qed
  have si: "s ! i = CHR ''t''" by (simp add: s ip nth_append)
  have b1: "wordb s i"
    using left si len is_word_tbd by (simp add: wordb_def)
  have sd: "s ! (i + 2) = CHR ''d''" by (simp add: s ip nth_append)
  have right: "\<not> (i + 3 < length s \<and> is_word (s ! (i + 3)))"
  proof (cases "post = []")
    case True then show ?thesis by (simp add: len q_def lower_def)
  next
    case False
    then have "q \<noteq> []" by (simp add: q_def lower_def)
    then have "s ! (i + 3) = hd q"
      by (simp add: s ip nth_append hd_conv_nth)
    also have "\<dots> = lower_char (hd post)"
      using False by (simp add: q_def lower_def hd_map)
    finally show ?thesis using r False by (simp add: is_word_lower_char)
  qed
  have b2: "wordb s (i + 3)"
    using right sd len is_word_tbd by (simp add: wordb_def)
  have tk: "take (length ''tbd'') (drop i s) = ''tbd''" by (simp add: s ip)
  have lit: "ends (Lit ''tbd'') s i = [i + 3]"
    by (simp only: ends.simps tk simp_thms if_True) simp
  have e1: "ends Wordb s i = [i]" using b1 by simp
  have e2: "ends Wordb s (i + 3) = [i + 3]" using b2 by simp
  have a1: "ends (Alt (Lit ''tbd'') a) s i = (i + 3) # ends a s i" for a
    by (simp only: ends.simps(5) lit append_Cons append_Nil)
  have a2: "ends (Seq (Alt (Lit ''tbd'') a) Wordb) s i
      = (i + 3) # concat (map (ends Wordb s) (ends a s i))" for a
    by (simp only: ends.simps(4) a1 list.map concat.simps e2 append_Cons append_Nil)
  have a3: "ends (Seq Wordb (Seq (Alt (Lit ''tbd'') a) Wordb)) s i
      = ends (Seq (Alt (Lit ''tbd'') a) Wordb) s i" for a
    by (simp only: ends.simps(4) [of Wordb] e1 list.map concat.simps append_Nil2)
  have a4: "ends (Seq Wordb (Seq (Alt (Lit ''tbd'') a) Wordb)) s i \<noteq> []" for a
    by (simp only: a3 a2 list.distinct not_False_eq_True)
  have "ends (hd placeholder_patterns) s i \<noteq> []"
    unfolding placeholder_patterns_def list.sel by (rule a4)
  moreover have "i \<le> length s" using len by simp
  ultimately show ?thesis unfolding s_def by (rule findall_nonempty [rotated])
qed

text \<open>
  The claim C6 as stated fails: a line of 34 characters that has \<open>TBD\<close> inside the word
  \<open>HTBDX\<close> matches none of the eight patterns, the first one being bounded by \<open>\b\<close>,
  and is not a short line; the flag is false.
\<close>

theorem C6_TBD_inside_word_counterexample:
  "contains ''Use the HTBDX protocol version two'' ''TBD''
   \<and> \<not> has_placeholders (detect_placeholders remdups ''Use the HTBDX protocol version two'')"
  by code_simp

text \<open>
  C6 (amended). For every content string that contains \<open>TBD\<close> as a whole word, that is
  neither directly preceded nor directly followed by a word character (a letter, a digit
  or an underscore: the class \<open>\w\<close>), the placeholder detector returns \<open>has_placeholders\<close> true.
\<close>

theorem C6_whole_word_TBD_flagged:
  assumes c: "content = pre @ ''TBD'' @ post"
    and l: "pre = [] \<or> \<not> is_word (last pre)"
    and r: "post = [] \<or> \<not> is_word (hd post)"
  shows "has_placeholders (detect_placeholders so content)"
proof -
  have "findall (hd placeholder_patterns) (lower content) \<noteq> []"
    using assms by (rule tbd_word_found)
  then have "concat (map (\<lambda>pattern. findall pattern (lower content)) placeholder_patterns) \<noteq> []"
    by (simp add: placeholder_patterns_def)
  moreover have "has_placeholders (detect_placeholders so content) =
      (concat (map (\<lambda>pattern. findall pattern (lower content)) placeholder_patterns) \<noteq> []
       \<or> 3 * length (split_on NL content)
           < 10 * length (filter (\<lambda>line. 0 < length (strip line) \<and> length (strip line) < 20)
                            (split_on NL content)))"
    by (simp only: detect_placeholders_def Let_def PlaceholderFlags.simps)
  ultimately show ?thesis by blast
qed

theorem C6_whole_word_TBD_flagged_witness:
  "has_placeholders (detect_placeholders remdups ''Overview: TBD, see the notes of the last meeting'')"
proof -
  have "''Overview: TBD, see the notes of the last meeting''
      = ''Overview: '' @ ''TBD'' @ '', see the notes of the last meeting''" by simp
  moreover have "''Overview: '' = [] \<or> \<not> is_word (last ''Overview: '')" by code_simp
  moreover have "'', see the notes of the last meeting'' = []
      \<or> \<not> is_word (hd '', see the notes of the last meeting'')" by code_simp
  ultimately show ?thesis by (rule C6_whole_word_TBD_flagged)
qed


end
